theory Spec2Isabelle
  imports Main "HOL-Library.Product_Lexorder" "HOL-Library.Multiset"
begin

section \<open>Values and exceptions of the Python program\<close>

text \<open>
  The schedule document is whatever \<^verbatim>\<open>json.load\<close> returns: a JSON value. A JSON object
  becomes a Python dict, modelled as an association list in insertion order (Python dicts
  keep it); a dict has every key once, so lookups read the first entry of a key.
  A float is kept as an opaque mantissa/exponent pair: no operation below looks inside.
\<close>

datatype json =
    JNull
  | JBool bool
  | JInt int
  | JFloat int int
  | JStr string
  | JArr "json list"
  | JObj "(string \<times> json) list"

text \<open>The exceptions that can reach a caller of the modelled functions.\<close>

datatype py_error =
    ValueError
  | AttributeError
  | IndexError
  | NoSectionError
  | DuplicateSectionError
  | DuplicateOptionError
  | MissingSectionHeaderError
  | ParsingError
  | InterpolationSyntaxError
  | InterpolationMissingOptionError
  | InterpolationDepthError
  | Uncaught string

text \<open>\<^verbatim>\<open>d.get(key, default)\<close> on a dict.\<close>

definition dict_get :: "('k \<times> 'v) list \<Rightarrow> 'k \<Rightarrow> 'v \<Rightarrow> 'v" where
  "dict_get d key dflt = (case map_of d key of Some v \<Rightarrow> v | None \<Rightarrow> dflt)"

section \<open>ServiceDataManager\<close>

subsection \<open>Records and field extraction\<close>

record service_data_manager =
  json_path :: string
  data :: json

text \<open>The list \<^verbatim>\<open>song_keys\<close> of \<^verbatim>\<open>extract_song_data\<close>, in the order of the source.\<close>

definition song_keys :: "string list" where
  "song_keys =
     [''song1'', ''song2'', ''song3'', ''start'', ''end'', ''communion'',
      ''song1path'', ''song2path'', ''song3path'', ''startpath'', ''endpath'',
      ''communionpath'']"

text \<open>
  \<^verbatim>\<open>return {key: event_data.get(key, 'none') for key in song_keys}\<close>. The argument is any
  JSON value; \<^verbatim>\<open>.get\<close> exists on a dict only, so every other value raises AttributeError
  (at the first key of the comprehension).
\<close>

definition extract_song_data :: "json \<Rightarrow> py_error + (string \<times> json) list" where
  "extract_song_data event_data =
     (case event_data of
        JObj record_fields \<Rightarrow> Inr (map (\<lambda>key. (key, dict_get record_fields key (JStr ''none''))) song_keys)
      | _ \<Rightarrow> Inl AttributeError)"

text \<open>
  \<^verbatim>\<open>event_data = self.data.get(date_str, {})\<close>, then \<^verbatim>\<open>extract_song_data\<close>. The document
  itself is a dict only when the file held a JSON object.
\<close>

definition get_service_data :: "service_data_manager \<Rightarrow> string \<Rightarrow> py_error + (string \<times> json) list" where
  "get_service_data mgr date_str =
     (case data mgr of
        JObj doc \<Rightarrow> extract_song_data (dict_get doc date_str (JObj []))
      | _ \<Rightarrow> Inl AttributeError)"

subsection \<open>Dates\<close>

text \<open>
  A \<^verbatim>\<open>datetime.date\<close> is the triple (year, month, day); Python compares dates as these
  triples, lexicographically, which is the order of the product type here.
\<close>

type_synonym date = "nat \<times> nat \<times> nat"

definition is_digit :: "char \<Rightarrow> bool" where
  "is_digit c = (c \<in> set ''0123456789'')"

definition digit_val :: "char \<Rightarrow> nat" where
  "digit_val c = of_char c - (48::nat)"

text \<open>The pieces of a string between the occurrences of a separator.\<close>

fun split_on :: "char \<Rightarrow> string \<Rightarrow> string list" where
  "split_on sep [] = [[]]"
| "split_on sep (c # cs) =
     (if c = sep then [] # split_on sep cs
      else (case split_on sep cs of
              [] \<Rightarrow> [[c]]
            | piece # pieces \<Rightarrow> (c # piece) # pieces))"

text \<open>
  The three directives of the format \<^verbatim>\<open>'%d/%m/%Y'\<close>, as \<^verbatim>\<open>strptime\<close> reads them:
  \<^verbatim>\<open>%d\<close> is 01..31 with two digits, 1..9 with one, or a space and 1..9;
  \<^verbatim>\<open>%m\<close> is 01..12 with two digits or 1..9 with one; \<^verbatim>\<open>%Y\<close> is exactly four digits.
\<close>

fun day_directive :: "string \<Rightarrow> nat option" where
  "day_directive [c] = (if is_digit c \<and> c \<noteq> CHR ''0'' then Some (digit_val c) else None)"
| "day_directive [a, b] =
     (if a = CHR '' '' then (if is_digit b \<and> b \<noteq> CHR ''0'' then Some (digit_val b) else None)
      else if is_digit a \<and> is_digit b \<and> 1 \<le> 10 * digit_val a + digit_val b
              \<and> 10 * digit_val a + digit_val b \<le> 31
      then Some (10 * digit_val a + digit_val b) else None)"
| "day_directive _ = None"

fun month_directive :: "string \<Rightarrow> nat option" where
  "month_directive [c] = (if is_digit c \<and> c \<noteq> CHR ''0'' then Some (digit_val c) else None)"
| "month_directive [a, b] =
     (if is_digit a \<and> is_digit b \<and> 1 \<le> 10 * digit_val a + digit_val b
              \<and> 10 * digit_val a + digit_val b \<le> 12
      then Some (10 * digit_val a + digit_val b) else None)"
| "month_directive _ = None"

fun year_directive :: "string \<Rightarrow> nat option" where
  "year_directive [a, b, c, d] =
     (if is_digit a \<and> is_digit b \<and> is_digit c \<and> is_digit d
      then Some (1000 * digit_val a + 100 * digit_val b + 10 * digit_val c + digit_val d)
      else None)"
| "year_directive _ = None"

definition is_leap :: "nat \<Rightarrow> bool" where
  "is_leap y = (y mod 4 = 0 \<and> (y mod 100 \<noteq> 0 \<or> y mod 400 = 0))"

definition days_in_month :: "nat \<Rightarrow> nat \<Rightarrow> nat" where
  "days_in_month y m =
     (if m = 2 then (if is_leap y then 29 else 28)
      else if m = 4 \<or> m = 6 \<or> m = 9 \<or> m = 11 then 30 else 31)"

text \<open>
  \<^verbatim>\<open>datetime.strptime(x, '%d/%m/%Y')\<close>, followed by \<^verbatim>\<open>.date()\<close> where the source has it
  (the time part is midnight for every key, so the order of the datetimes is the order of
  the dates). The string must be day, slash, month, slash, year with nothing left over,
  and the date must exist (year from 1, day within the month): otherwise ValueError.
\<close>

definition strptime :: "string \<Rightarrow> py_error + date" where
  "strptime x =
     (case split_on (CHR ''/'') x of
        [ds, ms, ys] \<Rightarrow>
          (case (day_directive ds, month_directive ms, year_directive ys) of
             (Some d, Some m, Some y) \<Rightarrow>
               (if 1 \<le> y \<and> d \<le> days_in_month y m then Inr (y, m, d) else Inl ValueError)
           | _ \<Rightarrow> Inl ValueError)
      | _ \<Rightarrow> Inl ValueError)"

subsection \<open>Sorting with a key that can raise\<close>

text \<open>The key function applied to each element in turn; the first exception ends it.\<close>

fun compute_keys :: "('a \<Rightarrow> py_error + 'k) \<Rightarrow> 'a list \<Rightarrow> py_error + 'k list" where
  "compute_keys key [] = Inr []"
| "compute_keys key (x # xs) =
     (case key x of
        Inl e \<Rightarrow> Inl e
      | Inr k \<Rightarrow> (case compute_keys key xs of Inl e \<Rightarrow> Inl e | Inr ks \<Rightarrow> Inr (k # ks)))"

text \<open>
  \<^verbatim>\<open>sorted(xs, key=key)\<close> and \<^verbatim>\<open>xs.sort(key=key)\<close>: the keys are computed once, for every
  element, before anything is compared; the sort is stable.
\<close>

definition py_sorted :: "('a \<Rightarrow> py_error + 'k::linorder) \<Rightarrow> 'a list \<Rightarrow> py_error + 'a list" where
  "py_sorted key xs =
     (case compute_keys key xs of
        Inl e \<Rightarrow> Inl e
      | Inr ks \<Rightarrow> Inr (map fst (sort_key snd (zip xs ks))))"

text \<open>A list comprehension with a condition that can raise.\<close>

fun py_filter :: "('a \<Rightarrow> py_error + bool) \<Rightarrow> 'a list \<Rightarrow> py_error + 'a list" where
  "py_filter cond [] = Inr []"
| "py_filter cond (x # xs) =
     (case cond x of
        Inl e \<Rightarrow> Inl e
      | Inr b \<Rightarrow> (case py_filter cond xs of
                    Inl e \<Rightarrow> Inl e
                  | Inr ys \<Rightarrow> Inr (if b then x # ys else ys)))"

subsection \<open>Queries on the loaded document\<close>

text \<open>\<^verbatim>\<open>sorted(self.data.keys(), key=lambda x: datetime.strptime(x, '%d/%m/%Y'))\<close>\<close>

definition get_sorted_dates :: "service_data_manager \<Rightarrow> py_error + string list" where
  "get_sorted_dates mgr =
     (case data mgr of
        JObj doc \<Rightarrow> py_sorted strptime (map fst doc)
      | _ \<Rightarrow> Inl AttributeError)"

text \<open>
  \<^verbatim>\<open>find_nearest_upcoming_service\<close>. The source reads the clock once
  (\<^verbatim>\<open>datetime.today().date()\<close>); here it is the argument \<open>today\<close>.
\<close>

definition find_nearest_upcoming_service ::
  "date \<Rightarrow> service_data_manager \<Rightarrow> py_error + (string \<times> json) option" where
  "find_nearest_upcoming_service today mgr =
     (case data mgr of
        JObj doc \<Rightarrow>
          (case py_filter (\<lambda>(date_str, details).
                             case strptime date_str of
                               Inl e \<Rightarrow> Inl e
                             | Inr d \<Rightarrow> Inr (today \<le> d)) doc of
             Inl e \<Rightarrow> Inl e
           | Inr future_events \<Rightarrow>
               (if future_events \<noteq> [] then
                  (case py_sorted (\<lambda>x. strptime (fst x)) future_events of
                     Inl e \<Rightarrow> Inl e
                   | Inr [] \<Rightarrow> Inl IndexError
                   | Inr (first # _) \<Rightarrow> Inr (Some first))
                else Inr None))
      | _ \<Rightarrow> Inl AttributeError)"

subsection \<open>Loading the document\<close>

text \<open>
  The file system as \<^verbatim>\<open>load_data\<close> sees it: at a path there is no file, a file that
  \<^verbatim>\<open>open\<close> cannot read (it raises), or a file with its text. The library function
  \<^verbatim>\<open>json.load\<close> is a parameter \<open>json_load\<close>: it raises on some texts and returns the parsed
  value on the others.
\<close>

datatype file_entry =
    Missing
  | Unreadable string
  | Contents string

text \<open>
  \<^verbatim>\<open>load_data\<close>: the assignment to \<^verbatim>\<open>self.data\<close> happens only once \<^verbatim>\<open>json.load\<close> has
  returned; every exception is caught and turned into False.
\<close>

definition load_data ::
  "(string \<Rightarrow> string + json) \<Rightarrow> (string \<Rightarrow> file_entry) \<Rightarrow> service_data_manager
     \<Rightarrow> service_data_manager \<times> bool" where
  "load_data json_load fs mgr =
     (case fs (json_path mgr) of
        Contents text \<Rightarrow>
          (case json_load text of
             Inr v \<Rightarrow> (mgr\<lparr>data := v\<rparr>, True)
           | Inl e \<Rightarrow> (mgr, False))
      | Unreadable e \<Rightarrow> (mgr, False)
      | Missing \<Rightarrow> (mgr, False))"

text \<open>The constructor: \<^verbatim>\<open>self.data = {}\<close>, then \<^verbatim>\<open>self.load_data()\<close>.\<close>

definition ServiceDataManager ::
  "(string \<Rightarrow> string + json) \<Rightarrow> (string \<Rightarrow> file_entry) \<Rightarrow> string \<Rightarrow> service_data_manager" where
  "ServiceDataManager json_load fs path =
     fst (load_data json_load fs \<lparr>json_path = path, data = JObj []\<rparr>)"

section \<open>CompanionAPI\<close>

text \<open>
  The network as the program sees it. \<open>sock_connect host port\<close> is what
  \<^verbatim>\<open>socket.create_connection\<close> does; \<open>http_reply n url\<close> is what the HTTP request
  number \<open>n\<close> of the run does when sent to \<open>url\<close> (so the same URL may succeed once and
  fail later); \<open>http_log\<close> lists the requests sent so far, oldest first.
\<close>

datatype sock_outcome =
    Connected
  | SocketError string
  | SocketOtherError string

datatype http_outcome =
    Response nat string
  | RequestException string
  | OtherException string

datatype http_method = GET | POST

record network =
  sock_connect :: "string \<Rightarrow> nat \<Rightarrow> sock_outcome"
  http_reply :: "nat \<Rightarrow> string \<Rightarrow> http_outcome"
  http_log :: "(http_method \<times> string) list"

definition http_request :: "http_method \<Rightarrow> string \<Rightarrow> network \<Rightarrow> network \<times> http_outcome" where
  "http_request method url net =
     (net\<lparr>http_log := http_log net @ [(method, url)]\<rparr>,
      http_reply net (length (http_log net)) url)"

record companion_api =
  companion_ip :: string
  base_url :: string
  timeout :: nat

definition CompanionAPI :: "string \<Rightarrow> companion_api" where
  "CompanionAPI ip =
     \<lparr>companion_ip = ip,
      base_url = ''http://'' @ ip @ '':8000/api/custom-variable'',
      timeout = 5\<rparr>"

text \<open>\<^verbatim>\<open>self.variable_map\<close>, the same for every instance.\<close>

definition variable_map :: "(string \<times> string) list" where
  "variable_map =
     [(''song1'', ''9amSong1''),
      (''song2'', ''9amSong2''),
      (''song3'', ''9amSong3''),
      (''start'', ''9amStart''),
      (''end'', ''9amEnd''),
      (''communion'', ''9amCommunion''),
      (''song1path'', ''9amSong1Path''),
      (''song2path'', ''9amSong2Path''),
      (''song3path'', ''9amSong3Path''),
      (''startpath'', ''9amStartPath''),
      (''endpath'', ''9amEndPath''),
      (''communionpath'', ''9amCommunionPath'')]"

text \<open>
  The URL that sets a variable, \<^verbatim>\<open>f"{self.base_url}/{var_name}/value?value={value}"\<close>, and
  the entry of the error list, \<^verbatim>\<open>f"{var_name}: {e}"\<close>.
\<close>

definition set_value_url :: "companion_api \<Rightarrow> string \<Rightarrow> string \<Rightarrow> string" where
  "set_value_url api var_name val = base_url api @ ''/'' @ var_name @ ''/value?value='' @ val"

definition error_entry :: "string \<Rightarrow> string \<Rightarrow> string" where
  "error_entry var_name e = var_name @ '': '' @ e"

text \<open>
  \<^verbatim>\<open>test_connection\<close>: \<^verbatim>\<open>socket.error\<close> and \<^verbatim>\<open>requests.RequestException\<close> are caught and
  give False; any other exception is not caught.
\<close>

definition test_connection :: "companion_api \<Rightarrow> network \<Rightarrow> network \<times> (py_error + bool)" where
  "test_connection api net =
     (case sock_connect net (companion_ip api) 8000 of
        SocketError e \<Rightarrow> (net, Inr False)
      | SocketOtherError e \<Rightarrow> (net, Inl (Uncaught e))
      | Connected \<Rightarrow>
          (case http_request GET (base_url api @ ''/ServiceDate/value'') net of
             (net', Response status_code body) \<Rightarrow> (net', Inr (status_code = 200))
           | (net', RequestException e) \<Rightarrow> (net', Inr False)
           | (net', OtherException e) \<Rightarrow> (net', Inl (Uncaught e))))"

text \<open>
  The loop \<^verbatim>\<open>for key, value in song_data.items()\<close> of \<^verbatim>\<open>update_service_data\<close>, with the
  list \<open>errors\<close> collected so far. \<^verbatim>\<open>if var_name:\<close> is false for a key that is not in the
  table (\<^verbatim>\<open>.get\<close> gives None) and for an empty name.
\<close>

fun update_fields ::
  "companion_api \<Rightarrow> (string \<times> string) list \<Rightarrow> network \<Rightarrow> string list
     \<Rightarrow> network \<times> (py_error + string list)" where
  "update_fields api [] net errors = (net, Inr errors)"
| "update_fields api ((key, val) # rest) net errors =
     (case map_of variable_map key of
        None \<Rightarrow> update_fields api rest net errors
      | Some var_name \<Rightarrow>
          (if var_name = [] then update_fields api rest net errors
           else
             (case http_request POST (set_value_url api var_name val) net of
                (net', Response status_code body) \<Rightarrow> update_fields api rest net' errors
              | (net', RequestException e) \<Rightarrow>
                  update_fields api rest net' (errors @ [error_entry var_name e])
              | (net', OtherException e) \<Rightarrow> (net', Inl (Uncaught e)))))"

text \<open>
  \<^verbatim>\<open>update_service_data(song_data, service_date)\<close>: the date first, then the fields. The
  response of a request that returns is not looked at. The values of \<open>song_data\<close> are
  strings, as the signature \<^verbatim>\<open>Dict[str, str]\<close> says.
\<close>

definition update_service_data ::
  "companion_api \<Rightarrow> (string \<times> string) list \<Rightarrow> string \<Rightarrow> network
     \<Rightarrow> network \<times> (py_error + string list)" where
  "update_service_data api song_data service_date net =
     (case http_request POST (set_value_url api ''ServiceDate'' service_date) net of
        (net', Response status_code body) \<Rightarrow> update_fields api song_data net' []
      | (net', RequestException e) \<Rightarrow> update_fields api song_data net' [error_entry ''ServiceDate'' e]
      | (net', OtherException e) \<Rightarrow> (net', Inl (Uncaught e)))"

section \<open>Config\<close>

subsection \<open>Python strings\<close>









definition tab :: char where
  "tab = CHR 0x09"




subsection \<open>The library class ConfigParser\<close>


















subsection \<open>Reading a file into a ConfigParser\<close>














subsection \<open>The class Config\<close>














section \<open>Notions used to state and prove the properties\<close>

text \<open>The date a key stands for, when it parses (a dummy date otherwise).\<close>

definition date_of :: "string \<Rightarrow> date" where
  "date_of x = (case strptime x of Inr d \<Rightarrow> d | Inl e \<Rightarrow> (0, 0, 0))"

text \<open>An entry of \<open>song_data\<close> whose key is in \<open>variable_map\<close>, and the request written for it.\<close>

definition in_table :: "string \<times> string \<Rightarrow> bool" where
  "in_table kv = (map_of variable_map (fst kv) \<noteq> None)"

definition field_request :: "companion_api \<Rightarrow> string \<times> string \<Rightarrow> http_method \<times> string" where
  "field_request api kv =
     (POST, set_value_url api (dict_get variable_map (fst kv) []) (snd kv))"





section \<open>Concrete inputs\<close>

text \<open>
  The schedule of the scenario: two services, the later one inserted first. In
  \<open>mixed_schedule\<close> the same day is written twice, padded and not, and the order of the
  dates differs from the order of the strings.
\<close>

definition scenario_schedule :: "(string \<times> json) list" where
  "scenario_schedule =
     [(''01/01/2099'', JObj [(''song1'', JStr ''Amazing Grace'')]),
      (''01/01/2020'', JObj [(''song1'', JStr ''Old Song'')])]"

definition scenario_manager :: service_data_manager where
  "scenario_manager = \<lparr>json_path = ''selections.json'', data = JObj scenario_schedule\<rparr>"

definition mixed_schedule :: "(string \<times> json) list" where
  "mixed_schedule =
     [(''01/12/2020'', JObj []), (''02/01/2020'', JObj []), (''2/1/2020'', JObj [])]"

text \<open>
  Three networks: one where the port is closed, one where the socket connects and every
  HTTP request times out, one where every request is answered with status 200.
\<close>

definition refusing_network :: network where
  "refusing_network =
     \<lparr>sock_connect = (\<lambda>host port. SocketError ''Connection refused''),
      http_reply = (\<lambda>n url. RequestException ''Connection refused''),
      http_log = []\<rparr>"

definition timing_out_network :: network where
  "timing_out_network =
     \<lparr>sock_connect = (\<lambda>host port. Connected),
      http_reply = (\<lambda>n url. RequestException ''Read timed out''),
      http_log = []\<rparr>"

definition answering_network :: network where
  "answering_network =
     \<lparr>sock_connect = (\<lambda>host port. Connected),
      http_reply = (\<lambda>n url. Response 200 ''01/01/2099''),
      http_log = []\<rparr>"

text \<open>
  Two more: one where the server answers every request with status 500, one where every
  request ends in an exception that is not a \<^verbatim>\<open>RequestException\<close>.
\<close>

definition erroring_network :: network where
  "erroring_network =
     \<lparr>sock_connect = (\<lambda>host port. Connected),
      http_reply = (\<lambda>n url. Response 500 ''Internal Server Error''),
      http_log = []\<rparr>"

definition crashing_network :: network where
  "crashing_network =
     \<lparr>sock_connect = (\<lambda>host port. Connected),
      http_reply = (\<lambda>n url. OtherException ''UnicodeError''),
      http_log = []\<rparr>"

text \<open>
  A stand-in for \<^verbatim>\<open>json.load\<close> that is enough to try \<open>load_data\<close>: it parses the empty
  object and raises on every other text.
\<close>

definition only_empty_object :: "string \<Rightarrow> string + json" where
  "only_empty_object text = (if text = ''{}'' then Inr (JObj []) else Inl ''JSONDecodeError'')"

text \<open>The twelve fields, each with the placeholder, as the input of \<open>update_service_data\<close>.\<close>

definition placeholder_fields :: "(string \<times> string) list" where
  "placeholder_fields = map (\<lambda>key. (key, ''none'')) song_keys"

section \<open>Field extraction\<close>

lemma distinct_song_keys: "distinct song_keys"
  by (simp add: song_keys_def)

lemma length_song_keys: "length song_keys = 12"
  by (simp add: song_keys_def)

lemma map_of_comprehension:
  "map_of (map (\<lambda>k. (k, f k)) ks) k = (if k \<in> set ks then Some (f k) else None)"
  by (induction ks) auto

lemma dict_get_append_absent:
  "map_of d k = None \<Longrightarrow> dict_get (d @ [(k, v)]) k' v = dict_get d k' v"
  by (auto simp: dict_get_def map_add_def split: option.splits)

section \<open>Sorting and nearest date\<close>

lemma insort_key_map:
  "insort_key g (h x) (map h ys) = map h (insort_key (\<lambda>y. g (h y)) x ys)"
  by (induction ys) auto

lemma sort_key_map:
  "sort_key g (map h xs) = map h (sort_key (\<lambda>y. g (h y)) xs)"
  by (induction xs) (auto simp: insort_key_map)

lemma compute_keys_ok:
  "(\<And>x. x \<in> set xs \<Longrightarrow> key x = Inr (f x)) \<Longrightarrow> compute_keys key xs = Inr (map f xs)"
  by (induction xs) auto

lemma compute_keys_raises:
  "compute_keys key xs = Inl e \<Longrightarrow> \<exists>x \<in> set xs. key x = Inl e"
  by (induction xs) (auto split: sum.splits)

lemma zip_map_self: "zip xs (map f xs) = map (\<lambda>x. (x, f x)) xs"
  by (induction xs) auto

lemma py_sorted_ok:
  assumes "\<And>x. x \<in> set xs \<Longrightarrow> key x = Inr (f x)"
  shows "py_sorted key xs = Inr (sort_key f xs)"
proof -
  have "compute_keys key xs = Inr (map f xs)"
    using assms by (rule compute_keys_ok)
  then show ?thesis
    by (simp add: py_sorted_def zip_map_self sort_key_map comp_def)
qed

lemma py_filter_ok:
  "(\<And>x. x \<in> set xs \<Longrightarrow> cond x = Inr (p x)) \<Longrightarrow> py_filter cond xs = Inr (filter p xs)"
  by (induction xs) auto

lemma map_sort_key: "map f (sort_key f xs) = sort (map f xs)"
  by (simp add: sort_key_map)

lemma sort_key_hd_least:
  assumes "sort_key f xs = y # ys" "x \<in> set xs"
  shows "f y \<le> f x"
proof -
  have "sorted (map f (sort_key f xs))" by (rule sorted_sort_key)
  moreover have "x \<in> set (sort_key f xs)" using assms(2) by simp
  ultimately show ?thesis using assms(1) by auto
qed

lemma parsed_keys:
  assumes "\<forall>k \<in> set ks. \<exists>d. strptime k = Inr d"
  shows "\<And>k. k \<in> set ks \<Longrightarrow> strptime k = Inr (date_of k)"
  using assms by (auto simp: date_of_def)

text \<open>
  Claim C3. When every key of the document parses as a day/month/year date,
  \<open>get_sorted_dates\<close> returns the keys of the document, each as often as it occurs there,
  arranged so that their dates are in non-decreasing calendar order. The order in which
  the keys were inserted does not matter: a document with the same keys in another order
  gives the same sequence of dates.
\<close>

theorem get_sorted_dates_sorted:
  assumes doc: "data mgr = JObj doc"
    and parse: "\<forall>k \<in> set (map fst doc). \<exists>d. strptime k = Inr d"
  shows "\<exists>ks ds. get_sorted_dates mgr = Inr ks
           \<and> mset ks = mset (map fst doc)
           \<and> map strptime ks = map Inr ds \<and> sorted ds
           \<and> (\<forall>doc'. mset (map fst doc') = mset (map fst doc) \<longrightarrow>
                 (\<exists>ks'. get_sorted_dates (mgr\<lparr>data := JObj doc'\<rparr>) = Inr ks'
                    \<and> mset ks' = mset (map fst doc)
                    \<and> map strptime ks' = map Inr ds))"
proof -
  let ?keys = "map fst doc"
  let ?ks = "sort_key date_of ?keys"
  let ?ds = "sort (map date_of ?keys)"
  have ok: "\<And>k. k \<in> set ?keys \<Longrightarrow> strptime k = Inr (date_of k)"
    using parse by (rule parsed_keys)
  have res: "get_sorted_dates mgr = Inr ?ks"
    using doc py_sorted_ok [of ?keys strptime date_of, OF ok]
    by (simp add: get_sorted_dates_def)
  have perm: "mset ?ks = mset ?keys" by simp
  have dates: "map strptime ?ks = map Inr ?ds"
  proof -
    have "map strptime ?ks = map (\<lambda>k. Inr (date_of k)) ?ks"
      using ok by (intro map_cong) auto
    also have "\<dots> = map Inr (map date_of ?ks)" by simp
    also have "map date_of ?ks = ?ds" by (rule map_sort_key)
    finally show ?thesis .
  qed
  have other: "\<exists>ks'. get_sorted_dates (mgr\<lparr>data := JObj doc'\<rparr>) = Inr ks'
                 \<and> mset ks' = mset ?keys \<and> map strptime ks' = map Inr ?ds"
    if same: "mset (map fst doc') = mset ?keys" for doc'
  proof -
    let ?keys' = "map fst doc'"
    let ?ks' = "sort_key date_of ?keys'"
    have set_eq: "set ?keys' = set ?keys" using same by (rule mset_eq_setD)
    have ok': "\<And>k. k \<in> set ?keys' \<Longrightarrow> strptime k = Inr (date_of k)"
      using ok set_eq by blast
    have res': "get_sorted_dates (mgr\<lparr>data := JObj doc'\<rparr>) = Inr ?ks'"
      using py_sorted_ok [of ?keys' strptime date_of, OF ok']
      by (simp add: get_sorted_dates_def)
    have "mset (map date_of ?keys') = mset (map date_of ?keys)"
      using same by (metis mset_map)
    then have sort_eq: "sort (map date_of ?keys') = ?ds"
      by (intro properties_for_sort) simp_all
    have "map strptime ?ks' = map (\<lambda>k. Inr (date_of k)) ?ks'"
      using ok' by (intro map_cong) auto
    also have "\<dots> = map Inr (map date_of ?ks')" by simp
    also have "map date_of ?ks' = sort (map date_of ?keys')" by (rule map_sort_key)
    finally have "map strptime ?ks' = map Inr ?ds" using sort_eq by simp
    with res' same show ?thesis by simp
  qed
  show ?thesis
    using res perm dates other by (intro exI [of _ ?ks] exI [of _ ?ds]) simp
qed


text \<open>
  Claim C1. When every key of the document parses, and some key's date is on or after
  \<open>today\<close>, \<open>find_nearest_upcoming_service\<close> returns an entry of the document whose date
  is on or after \<open>today\<close> and is the least such date. When the document is empty or every
  date is strictly before \<open>today\<close>, it returns None.
\<close>

theorem find_nearest_upcoming_service_min:
  assumes doc: "data mgr = JObj doc"
    and parse: "\<forall>k \<in> set (map fst doc). \<exists>d. strptime k = Inr d"
  shows "((\<exists>k d. k \<in> set (map fst doc) \<and> strptime k = Inr d \<and> today \<le> d) \<longrightarrow>
            (\<exists>k v d. find_nearest_upcoming_service today mgr = Inr (Some (k, v))
               \<and> (k, v) \<in> set doc \<and> strptime k = Inr d \<and> today \<le> d
               \<and> (\<forall>k' d'. k' \<in> set (map fst doc) \<and> strptime k' = Inr d' \<and> today \<le> d'
                      \<longrightarrow> d \<le> d')))
       \<and> ((doc = [] \<or> (\<forall>k d. k \<in> set (map fst doc) \<and> strptime k = Inr d \<longrightarrow> d < today)) \<longrightarrow>
            find_nearest_upcoming_service today mgr = Inr None)"
proof -
  let ?upcoming = "\<lambda>x::string \<times> json. today \<le> date_of (fst x)"
  let ?future = "filter ?upcoming doc"
  have ok: "\<And>k. k \<in> set (map fst doc) \<Longrightarrow> strptime k = Inr (date_of k)"
    using parse by (rule parsed_keys)
  have "py_filter (\<lambda>(date_str, details).
                     case strptime date_str of Inl e \<Rightarrow> Inl e | Inr d \<Rightarrow> Inr (today \<le> d)) doc
          = Inr ?future"
    using ok by (intro py_filter_ok) (auto simp: rev_image_eqI)
  moreover have "py_sorted (\<lambda>x. strptime (fst x)) ?future = Inr (sort_key (\<lambda>x. date_of (fst x)) ?future)"
    using ok by (intro py_sorted_ok) auto
  ultimately have res: "find_nearest_upcoming_service today mgr =
      (if ?future \<noteq> [] then
         (case sort_key (\<lambda>x. date_of (fst x)) ?future of
            [] \<Rightarrow> Inl IndexError | first # _ \<Rightarrow> Inr (Some first))
       else Inr None)"
    using doc by (simp add: find_nearest_upcoming_service_def)
  have some: "\<exists>k v d. find_nearest_upcoming_service today mgr = Inr (Some (k, v))
               \<and> (k, v) \<in> set doc \<and> strptime k = Inr d \<and> today \<le> d
               \<and> (\<forall>k' d'. k' \<in> set (map fst doc) \<and> strptime k' = Inr d' \<and> today \<le> d'
                      \<longrightarrow> d \<le> d')"
    if ex: "\<exists>k d. k \<in> set (map fst doc) \<and> strptime k = Inr d \<and> today \<le> d"
  proof -
    from ex obtain k0 d0 where k0: "k0 \<in> set (map fst doc)" "strptime k0 = Inr d0" "today \<le> d0"
      by blast
    then have "today \<le> date_of k0" using ok by fastforce
    with k0(1) have nonempty: "?future \<noteq> []"
      by (auto simp: filter_empty_conv)
    then have "sort_key (\<lambda>x. date_of (fst x)) ?future \<noteq> []"
      by (metis length_sort length_0_conv)
    then obtain first rest where srt: "sort_key (\<lambda>x. date_of (fst x)) ?future = first # rest"
      by (cases "sort_key (\<lambda>x. date_of (fst x)) ?future") auto
    obtain k v where first: "first = (k, v)" by (cases first)
    have "first \<in> set (sort_key (\<lambda>x. date_of (fst x)) ?future)" using srt by simp
    then have mem: "(k, v) \<in> set doc" and up: "today \<le> date_of k"
      using first by auto
    have kparse: "strptime k = Inr (date_of k)"
      using mem ok by (auto simp: rev_image_eqI)
    have least: "date_of k \<le> d'"
      if "k' \<in> set (map fst doc)" "strptime k' = Inr d'" "today \<le> d'" for k' d'
    proof -
      from that(1) obtain v' where kv': "(k', v') \<in> set doc" by auto
      have d': "date_of k' = d'" using that(2) by (simp add: date_of_def)
      with that(3) kv' have "(k', v') \<in> set ?future" by simp
      from sort_key_hd_least [OF srt this] show ?thesis using first d' by simp
    qed
    have "find_nearest_upcoming_service today mgr = Inr (Some (k, v))"
      using res nonempty srt first by simp
    with mem kparse up least show ?thesis by blast
  qed
  have none: "find_nearest_upcoming_service today mgr = Inr None"
    if past: "doc = [] \<or> (\<forall>k d. k \<in> set (map fst doc) \<and> strptime k = Inr d \<longrightarrow> d < today)"
  proof -
    have "\<not> today \<le> date_of (fst x)" if "x \<in> set doc" for x
    proof -
      have "fst x \<in> set (map fst doc)" using that by simp
      moreover from this have "strptime (fst x) = Inr (date_of (fst x))" by (rule ok)
      moreover have "doc \<noteq> []" using that by auto
      ultimately have "date_of (fst x) < today" using past by metis
      then show ?thesis by simp
    qed
    then have "?future = []" by (simp add: filter_empty_conv)
    with res show ?thesis by simp
  qed
  from some none show ?thesis by blast
qed

section \<open>Writes to the remote server\<close>

lemma variable_names_nonempty: "map_of variable_map key = Some var_name \<Longrightarrow> var_name \<noteq> []"
proof -
  have "\<forall>kv \<in> set variable_map. snd kv \<noteq> []"
    by (simp add: variable_map_def)
  moreover assume "map_of variable_map key = Some var_name"
  then have "(key, var_name) \<in> set variable_map" by (rule map_of_SomeD)
  ultimately show "var_name \<noteq> []" by fastforce
qed

lemma http_log_request: "http_log (fst (http_request m url net)) = http_log net @ [(m, url)]"
  by (simp add: http_request_def)

lemma http_request_fst: "fst (http_request m url net) = net\<lparr>http_log := http_log net @ [(m, url)]\<rparr>"
  by (simp add: http_request_def)

lemma http_request_snd: "snd (http_request m url net) = http_reply net (length (http_log net)) url"
  by (simp add: http_request_def)

lemma update_fields_skip:
  "update_fields api (filter in_table song_data) net errors = update_fields api song_data net errors"
proof (induction song_data arbitrary: net errors)
  case Nil
  show ?case by simp
next
  case (Cons kv rest)
  obtain key val where kv: "kv = (key, val)" by (cases kv)
  show ?case
  proof (cases "map_of variable_map key")
    case None
    then have "\<not> in_table kv" using kv by (simp add: in_table_def)
    then show ?thesis using Cons None kv by simp
  next
    case (Some var_name)
    then have "in_table kv" using kv by (simp add: in_table_def)
    then show ?thesis using Cons Some kv
      by (simp split: prod.splits http_outcome.splits)
  qed
qed

lemma update_fields_log:
  "\<exists>n. http_log (fst (update_fields api song_data net errors))
         = http_log net @ take n (map (field_request api) (filter in_table song_data))
       \<and> (\<forall>errs. snd (update_fields api song_data net errors) = Inr errs
            \<longrightarrow> length (filter in_table song_data) \<le> n)"
proof (induction song_data arbitrary: net errors)
  case Nil
  show ?case by simp
next
  case (Cons kv rest)
  obtain key val where kv: "kv = (key, val)" by (cases kv)
  show ?case
  proof (cases "map_of variable_map key")
    case None
    then have "\<not> in_table kv" using kv by (simp add: in_table_def)
    then show ?thesis using Cons [of net errors] None kv by simp
  next
    case (Some var_name)
    then have ne: "var_name \<noteq> []" by (rule variable_names_nonempty)
    have tab: "in_table kv" using Some kv by (simp add: in_table_def)
    let ?url = "set_value_url api var_name val"
    let ?req = "http_request POST ?url net"
    have freq: "field_request api kv = (POST, ?url)"
      using Some kv by (simp add: field_request_def dict_get_def)
    have log1: "http_log (fst ?req) = http_log net @ [(POST, ?url)]"
      by (rule http_log_request)
    obtain net' out where req: "?req = (net', out)" by (cases ?req)
    then have log': "http_log net' = http_log net @ [(POST, ?url)]" using log1 by simp
    show ?thesis
    proof (cases out)
      case (Response st body)
      from Cons [of net' errors] obtain n where
        n: "http_log (fst (update_fields api rest net' errors))
              = http_log net' @ take n (map (field_request api) (filter in_table rest))"
           "\<forall>errs. snd (update_fields api rest net' errors) = Inr errs
              \<longrightarrow> length (filter in_table rest) \<le> n"
        by blast
      show ?thesis
        using n Some kv ne req Response log' freq tab
        by (intro exI [of _ "Suc n"]) simp
    next
      case (RequestException e)
      from Cons [of net' "errors @ [error_entry var_name e]"] obtain n where
        n: "http_log (fst (update_fields api rest net' (errors @ [error_entry var_name e])))
              = http_log net' @ take n (map (field_request api) (filter in_table rest))"
           "\<forall>errs. snd (update_fields api rest net' (errors @ [error_entry var_name e])) = Inr errs
              \<longrightarrow> length (filter in_table rest) \<le> n"
        by blast
      show ?thesis
        using n Some kv ne req RequestException log' freq tab
        by (intro exI [of _ "Suc n"]) simp
    next
      case (OtherException e)
      show ?thesis
        using Some kv ne req OtherException log' freq tab
        by (intro exI [of _ "Suc 0"]) simp
    qed
  qed
qed

lemma update_fields_all_fail:
  assumes "\<forall>n url. \<exists>e. http_reply net n url = RequestException e"
  shows "\<exists>errs net'. update_fields api song_data net errors = (net', Inr errs)
           \<and> length errs = length errors + length (filter in_table song_data)
           \<and> http_log net' = http_log net @ map (field_request api) (filter in_table song_data)
           \<and> http_reply net' = http_reply net"
  using assms
proof (induction song_data arbitrary: net errors)
  case Nil
  show ?case by simp
next
  case (Cons kv rest)
  obtain key val where kv: "kv = (key, val)" by (cases kv)
  show ?case
  proof (cases "map_of variable_map key")
    case None
    then have "\<not> in_table kv" using kv by (simp add: in_table_def)
    then show ?thesis using Cons.IH [of net errors] Cons.prems None kv by simp
  next
    case (Some var_name)
    then have ne: "var_name \<noteq> []" by (rule variable_names_nonempty)
    have tab: "in_table kv" using Some kv by (simp add: in_table_def)
    let ?url = "set_value_url api var_name val"
    let ?net' = "net\<lparr>http_log := http_log net @ [(POST, ?url)]\<rparr>"
    obtain e where e: "http_reply net (length (http_log net)) ?url = RequestException e"
      using Cons.prems by blast
    have req: "http_request POST ?url net = (?net', RequestException e)"
      using e by (simp add: http_request_def)
    have freq: "field_request api kv = (POST, ?url)"
      using Some kv by (simp add: field_request_def dict_get_def)
    have "\<forall>n url. \<exists>e. http_reply ?net' n url = RequestException e"
      using Cons.prems by simp
    from Cons.IH [OF this, of "errors @ [error_entry var_name e]"]
    show ?thesis
      using Some kv ne req freq tab by simp
  qed
qed

lemma variable_map_keys: "map fst variable_map = song_keys"
  by (simp add: variable_map_def song_keys_def)

lemma in_table_iff: "in_table kv \<longleftrightarrow> fst kv \<in> set song_keys"
proof -
  have "in_table kv \<longleftrightarrow> fst kv \<in> fst ` set variable_map"
    by (simp add: in_table_def map_of_eq_None_iff)
  also have "fst ` set variable_map = set (map fst variable_map)" by simp
  finally show ?thesis by (simp only: variable_map_keys)
qed

lemma count_in_table:
  assumes "distinct (map fst song_data)" "set song_keys \<subseteq> set (map fst song_data)"
  shows "length (filter in_table song_data) = 12"
proof -
  let ?ks = "filter (\<lambda>k. k \<in> set song_keys) (map fst song_data)"
  have "filter in_table song_data = filter (\<lambda>kv. fst kv \<in> set song_keys) song_data"
    by (rule filter_cong) (simp_all add: in_table_iff)
  then have "map fst (filter in_table song_data) = ?ks"
    by (simp add: filter_map comp_def)
  then have "length (map fst (filter in_table song_data)) = length ?ks"
    by (rule arg_cong)
  then have len: "length (filter in_table song_data) = length ?ks"
    by (simp only: length_map)
  have dist: "distinct ?ks" using assms(1) by (rule distinct_filter)
  have sets: "set ?ks = set song_keys" using assms(2) by auto
  note len
  also have "length ?ks = card (set ?ks)" using dist by (rule distinct_card [symmetric])
  also have "\<dots> = card (set song_keys)" by (simp only: sets)
  also have "\<dots> = length song_keys"
    using distinct_song_keys by (rule distinct_card)
  finally show ?thesis by (simp add: length_song_keys)
qed

text \<open>
  Claim C4, as amended. When every HTTP request raises a \<^verbatim>\<open>RequestException\<close> (a
  connection error or a timeout, the failure that the code catches) and the input holds
  the twelve recognized fields, \<open>update_service_data\<close> returns normally, with a list of
  exactly 13 errors, after having sent all 13 requests (the date and the twelve fields):
  no such failure ends the batch and no exception reaches the caller.
\<close>

theorem update_service_data_all_fail:
  assumes fails: "\<forall>n url. \<exists>e. http_reply net n url = RequestException e"
    and keys: "distinct (map fst song_data)" "set song_keys \<subseteq> set (map fst song_data)"
  shows "\<exists>errors net'. update_service_data api song_data service_date net = (net', Inr errors)
           \<and> length errors = 13
           \<and> length (http_log net') = length (http_log net) + 13"
proof -
  let ?url = "set_value_url api ''ServiceDate'' service_date"
  let ?net1 = "net\<lparr>http_log := http_log net @ [(POST, ?url)]\<rparr>"
  obtain e where e: "http_reply net (length (http_log net)) ?url = RequestException e"
    using fails by blast
  have req: "http_request POST ?url net = (?net1, RequestException e)"
    using e by (simp add: http_request_def)
  have "\<forall>n url. \<exists>e. http_reply ?net1 n url = RequestException e"
    using fails by simp
  from update_fields_all_fail [OF this, of api song_data "[error_entry ''ServiceDate'' e]"]
  obtain errs net' where
    r: "update_fields api song_data ?net1 [error_entry ''ServiceDate'' e] = (net', Inr errs)"
       "length errs = 1 + length (filter in_table song_data)"
       "http_log net' = http_log ?net1 @ map (field_request api) (filter in_table song_data)"
    by auto
  have "update_service_data api song_data service_date net = (net', Inr errs)"
    using req r(1) by (simp add: update_service_data_def)
  moreover have "length errs = 13" using r(2) count_in_table [OF keys] by simp
  moreover have "length (http_log net') = length (http_log net) + 13"
    using r(3) count_in_table [OF keys] by simp
  ultimately show ?thesis by blast
qed

text \<open>
  A request that is answered is a success for \<open>update_service_data\<close>, whatever its
  status code: the response is not looked at, and no error is recorded.
\<close>

lemma update_fields_all_answered:
  assumes "\<forall>n url. \<exists>status_code body. http_reply net n url = Response status_code body"
  shows "snd (update_fields api song_data net errors) = Inr errors"
  using assms
proof (induction song_data arbitrary: net)
  case Nil
  show ?case by simp
next
  case (Cons kv rest)
  obtain key val where kv: "kv = (key, val)" by (cases kv)
  show ?case
  proof (cases "map_of variable_map key")
    case None
    then show ?thesis using Cons.IH [of net] Cons.prems kv by simp
  next
    case (Some var_name)
    then have ne: "var_name \<noteq> []" by (rule variable_names_nonempty)
    let ?url = "set_value_url api var_name val"
    let ?net' = "net\<lparr>http_log := http_log net @ [(POST, ?url)]\<rparr>"
    obtain st body where "http_reply net (length (http_log net)) ?url = Response st body"
      using Cons.prems by blast
    then have req: "http_request POST ?url net = (?net', Response st body)"
      by (simp add: http_request_def)
    have "\<forall>n url. \<exists>status_code body. http_reply ?net' n url = Response status_code body"
      using Cons.prems by simp
    from Cons.IH [OF this] show ?thesis
      using Some kv ne req by simp
  qed
qed

lemma update_service_data_status_ignored:
  assumes "\<forall>n url. \<exists>status_code body. http_reply net n url = Response status_code body"
  shows "snd (update_service_data api song_data service_date net) = Inr []"
proof -
  let ?url = "set_value_url api ''ServiceDate'' service_date"
  let ?net1 = "net\<lparr>http_log := http_log net @ [(POST, ?url)]\<rparr>"
  obtain st body where "http_reply net (length (http_log net)) ?url = Response st body"
    using assms by blast
  then have req: "http_request POST ?url net = (?net1, Response st body)"
    by (simp add: http_request_def)
  have "\<forall>n url. \<exists>status_code body. http_reply ?net1 n url = Response status_code body"
    using assms by simp
  from update_fields_all_answered [OF this, of api song_data "[]"] show ?thesis
    using req by (simp add: update_service_data_def)
qed

lemma update_service_data_log:
  "\<exists>n. http_log (fst (update_service_data api song_data service_date net))
         = http_log net @ (POST, set_value_url api ''ServiceDate'' service_date)
             # take n (map (field_request api) (filter in_table song_data))
       \<and> (\<forall>errs. snd (update_service_data api song_data service_date net) = Inr errs
            \<longrightarrow> length (filter in_table song_data) \<le> n)"
proof -
  let ?url = "set_value_url api ''ServiceDate'' service_date"
  obtain net' out where req: "http_request POST ?url net = (net', out)"
    by (cases "http_request POST ?url net")
  have log': "http_log net' = http_log net @ [(POST, ?url)]"
    using http_log_request [of POST ?url net] req by simp
  show ?thesis
  proof (cases out)
    case (Response st body)
    with req have "update_service_data api song_data service_date net
                     = update_fields api song_data net' []"
      by (simp add: update_service_data_def)
    then show ?thesis using update_fields_log [of api song_data net' "[]"] log' by simp
  next
    case (RequestException e)
    with req have "update_service_data api song_data service_date net
                     = update_fields api song_data net' [error_entry ''ServiceDate'' e]"
      by (simp add: update_service_data_def)
    then show ?thesis
      using update_fields_log [of api song_data net' "[error_entry ''ServiceDate'' e]"] log'
      by simp
  next
    case (OtherException e)
    with req have "update_service_data api song_data service_date net = (net', Inl (Uncaught e))"
      by (simp add: update_service_data_def)
    then show ?thesis using log' by (intro exI [of _ 0]) simp
  qed
qed

text \<open>
  Claim C7. In every run of \<open>update_service_data\<close>, whatever the network does, the first
  request sent is the write of the service date; every other request of the run comes
  after it and is the write of a field of the input.
\<close>

theorem update_service_data_date_first:
  "\<exists>rest. http_log (fst (update_service_data api song_data service_date net))
            = http_log net @ (POST, set_value_url api ''ServiceDate'' service_date) # rest
          \<and> set rest \<subseteq> field_request api ` set song_data"
proof -
  from update_service_data_log [of api song_data service_date net] obtain n where
    "http_log (fst (update_service_data api song_data service_date net))
         = http_log net @ (POST, set_value_url api ''ServiceDate'' service_date)
             # take n (map (field_request api) (filter in_table song_data))"
    by blast
  moreover have "set (take n (map (field_request api) (filter in_table song_data)))
                   \<subseteq> field_request api ` set song_data"
    using set_take_subset [of n "map (field_request api) (filter in_table song_data)"] by auto
  ultimately show ?thesis by blast
qed

lemma update_fields_errors_length:
  "snd (update_fields api song_data net errors) = Inr errs
     \<Longrightarrow> length errs \<le> length errors + length (filter in_table song_data)"
proof (induction song_data arbitrary: net errors)
  case Nil
  then show ?case by simp
next
  case (Cons kv rest)
  obtain key val where kv: "kv = (key, val)" by (cases kv)
  show ?case
  proof (cases "map_of variable_map key")
    case None
    then have "\<not> in_table kv" using kv by (simp add: in_table_def)
    then show ?thesis using Cons.IH [of net errors] Cons.prems None kv by simp
  next
    case (Some var_name)
    then have ne: "var_name \<noteq> []" by (rule variable_names_nonempty)
    have tab: "in_table kv" using Some kv by (simp add: in_table_def)
    obtain net' out where req: "http_request POST (set_value_url api var_name val) net = (net', out)"
      by (cases "http_request POST (set_value_url api var_name val) net")
    show ?thesis
    proof (cases out)
      case (Response st body)
      then show ?thesis
        using Cons.IH [of net' errors] Cons.prems Some kv ne req tab by simp
    next
      case (RequestException e)
      then show ?thesis
        using Cons.IH [of net' "errors @ [error_entry var_name e]"] Cons.prems Some kv ne req tab
        by simp
    next
      case (OtherException e)
      then show ?thesis using Cons.prems Some kv ne req by simp
    qed
  qed
qed

text \<open>
  Claim C9. A key of the input that is not in the table \<open>variable_map\<close> has no effect at
  all: the run with these keys removed sends the same requests and returns the same
  errors. A run that returns has sent the date write and then one write per entry whose
  key is in the table, in the order of the input, and nothing else; its error list has at
  most one entry per request sent.
\<close>

theorem update_service_data_table_only:
  "update_service_data api (filter in_table song_data) service_date net
     = update_service_data api song_data service_date net
   \<and> (\<forall>net' errs. update_service_data api song_data service_date net = (net', Inr errs) \<longrightarrow>
         http_log net' = http_log net @ (POST, set_value_url api ''ServiceDate'' service_date)
                           # map (field_request api) (filter in_table song_data)
         \<and> length errs \<le> 1 + length (filter in_table song_data))"
proof -
  have skip: "update_service_data api (filter in_table song_data) service_date net
                = update_service_data api song_data service_date net"
    by (simp add: update_service_data_def update_fields_skip split: prod.splits http_outcome.splits)
  have fin: "http_log net' = http_log net @ (POST, set_value_url api ''ServiceDate'' service_date)
                               # map (field_request api) (filter in_table song_data)
             \<and> length errs \<le> 1 + length (filter in_table song_data)"
    if res: "update_service_data api song_data service_date net = (net', Inr errs)" for net' errs
  proof -
    from update_service_data_log [of api song_data service_date net] res obtain n where
      n: "http_log net' = http_log net @ (POST, set_value_url api ''ServiceDate'' service_date)
             # take n (map (field_request api) (filter in_table song_data))"
         "length (filter in_table song_data) \<le> n"
      by auto
    then have log: "http_log net' = http_log net
        @ (POST, set_value_url api ''ServiceDate'' service_date)
             # map (field_request api) (filter in_table song_data)"
      by simp
    let ?url = "set_value_url api ''ServiceDate'' service_date"
    obtain net1 out where req: "http_request POST ?url net = (net1, out)"
      by (cases "http_request POST ?url net")
    have "length errs \<le> 1 + length (filter in_table song_data)"
    proof (cases out)
      case (Response st body)
      with req res have "snd (update_fields api song_data net1 []) = Inr errs"
        by (simp add: update_service_data_def)
      from update_fields_errors_length [OF this] show ?thesis by simp
    next
      case (RequestException e)
      with req res have "snd (update_fields api song_data net1 [error_entry ''ServiceDate'' e]) = Inr errs"
        by (simp add: update_service_data_def)
      from update_fields_errors_length [OF this] show ?thesis by simp
    next
      case (OtherException e)
      with req res show ?thesis by (simp add: update_service_data_def)
    qed
    with log show ?thesis by simp
  qed
  from skip fin show ?thesis by blast
qed

text \<open>
  Claim C2. For every record (a dict), \<open>extract_song_data\<close> returns a dict whose keys are
  exactly the twelve recognized names; each maps to the value stored in the record when
  there is one and to the string \<^verbatim>\<open>none\<close> otherwise. Storing \<^verbatim>\<open>none\<close> under an absent
  key gives the same result as leaving the key out.
\<close>

theorem extract_song_data_total:
  "\<exists>r. extract_song_data (JObj fs) = Inr r
       \<and> map fst r = song_keys \<and> length r = 12 \<and> dom (map_of r) = set song_keys
       \<and> (\<forall>key \<in> set song_keys.
             map_of r key = Some (case map_of fs key of Some v \<Rightarrow> v | None \<Rightarrow> JStr ''none''))
       \<and> (\<forall>key. map_of fs key = None \<longrightarrow>
             extract_song_data (JObj (fs @ [(key, JStr ''none'')])) = Inr r)"
proof -
  let ?r = "map (\<lambda>key. (key, dict_get fs key (JStr ''none''))) song_keys"
  have res: "extract_song_data (JObj fs) = Inr ?r"
    by (simp add: extract_song_data_def)
  have keys: "map fst ?r = song_keys" by (simp add: comp_def)
  have len: "length ?r = 12" by (simp add: length_song_keys)
  have dom: "dom (map_of ?r) = set song_keys"
    by (auto simp: map_of_comprehension dom_def)
  have vals: "\<forall>key \<in> set song_keys.
      map_of ?r key = Some (case map_of fs key of Some v \<Rightarrow> v | None \<Rightarrow> JStr ''none'')"
    by (simp add: map_of_comprehension dict_get_def)
  have same: "extract_song_data (JObj (fs @ [(key, JStr ''none'')])) = Inr ?r"
    if "map_of fs key = None" for key
    using that by (simp add: extract_song_data_def dict_get_append_absent)
  from res keys len dom vals same show ?thesis by blast
qed

text \<open>
  Claim C8. For a date that is not a key of the loaded document, \<open>get_service_data\<close>
  returns normally, with all twelve recognized fields equal to \<^verbatim>\<open>none\<close>: the same
  result as for a date whose record stores none of the recognized fields.
\<close>

theorem get_service_data_unknown_date:
  assumes "data mgr = JObj doc" and "map_of doc date_str = None"
  shows "get_service_data mgr date_str = Inr (map (\<lambda>key. (key, JStr ''none'')) song_keys)
         \<and> (\<forall>fs. (\<forall>key \<in> set song_keys. map_of fs key = None) \<longrightarrow>
               get_service_data (mgr\<lparr>data := JObj (doc @ [(date_str, JObj fs)])\<rparr>) date_str
                 = get_service_data mgr date_str)"
proof -
  have unknown: "get_service_data mgr date_str = Inr (map (\<lambda>key. (key, JStr ''none'')) song_keys)"
    using assms by (simp add: get_service_data_def extract_song_data_def dict_get_def)
  have stored: "get_service_data (mgr\<lparr>data := JObj (doc @ [(date_str, JObj fs)])\<rparr>) date_str
                  = Inr (map (\<lambda>key. (key, JStr ''none'')) song_keys)"
    if none: "\<forall>key \<in> set song_keys. map_of fs key = None" for fs
  proof -
    have "dict_get (doc @ [(date_str, JObj fs)]) date_str (JObj []) = JObj fs"
      using assms(2) by (simp add: dict_get_def map_add_def)
    moreover have "map (\<lambda>key. (key, dict_get fs key (JStr ''none''))) song_keys
                     = map (\<lambda>key. (key, JStr ''none'')) song_keys"
      using none by (intro map_cong) (simp_all add: dict_get_def)
    ultimately show ?thesis
      by (simp add: get_service_data_def extract_song_data_def)
  qed
  from unknown stored show ?thesis by simp
qed

text \<open>
  Claim C5. \<open>test_connection\<close> returns False, without raising, when the socket
  connection fails with a \<^verbatim>\<open>socket.error\<close> (host unreachable, port closed, connection
  timeout) and when the socket connects but the HTTP request raises a
  \<^verbatim>\<open>RequestException\<close> (such as a timeout). It returns True exactly when the socket
  connects and the GET of \<^verbatim>\<open>ServiceDate/value\<close> answers with status 200.
\<close>

theorem test_connection_spec:
  "(((\<exists>e. sock_connect net (companion_ip api) 8000 = SocketError e)
      \<or> (sock_connect net (companion_ip api) 8000 = Connected
          \<and> (\<exists>e. http_reply net (length (http_log net)) (base_url api @ ''/ServiceDate/value'')
                    = RequestException e)))
     \<longrightarrow> snd (test_connection api net) = Inr False)
   \<and> (snd (test_connection api net) = Inr True \<longleftrightarrow>
        sock_connect net (companion_ip api) 8000 = Connected
        \<and> (\<exists>body. http_reply net (length (http_log net)) (base_url api @ ''/ServiceDate/value'')
                     = Response 200 body))"
  by (auto simp: test_connection_def http_request_def split: sock_outcome.splits http_outcome.splits)

text \<open>
  Claim C10. When \<open>load_data\<close> returns False, the manager, and so the document in memory,
  is the one from before the call; and it returns False exactly when the file is absent,
  cannot be read or cannot be parsed.
\<close>

theorem load_data_failure_keeps_data:
  "(snd (load_data json_load fs mgr) = False \<longrightarrow>
      data (fst (load_data json_load fs mgr)) = data mgr \<and> fst (load_data json_load fs mgr) = mgr)
   \<and> (snd (load_data json_load fs mgr) = False \<longleftrightarrow>
        fs (json_path mgr) = Missing
        \<or> (\<exists>e. fs (json_path mgr) = Unreadable e)
        \<or> (\<exists>text e. fs (json_path mgr) = Contents text \<and> json_load text = Inl e))"
proof (cases "fs (json_path mgr)")
  case Missing
  then show ?thesis by (simp add: load_data_def)
next
  case (Unreadable e)
  then show ?thesis by (simp add: load_data_def)
next
  case (Contents str)
  then show ?thesis by (cases "json_load str") (simp_all add: load_data_def)
qed

section \<open>The settings store\<close>








































section \<open>The properties at concrete inputs\<close>

lemma strptime_2099: "strptime ''01/01/2099'' = Inr (2099, 1, 1)"
  by code_simp

lemma strptime_2020: "strptime ''01/01/2020'' = Inr (2020, 1, 1)"
  by code_simp

theorem get_sorted_dates_sorted_witness:
  "data scenario_manager = JObj scenario_schedule
   \<and> map strptime (map fst scenario_schedule) = [Inr (2099, 1, 1), Inr (2020, 1, 1)]
   \<and> (\<exists>ks ds. get_sorted_dates scenario_manager = Inr ks
         \<and> mset ks = mset (map fst scenario_schedule)
         \<and> map strptime ks = map Inr ds \<and> sorted ds)"
proof -
  have h1: "data scenario_manager = JObj scenario_schedule"
    by (simp add: scenario_manager_def)
  have h2: "\<forall>k \<in> set (map fst scenario_schedule). \<exists>d. strptime k = Inr d"
    by (simp add: scenario_schedule_def strptime_2099 strptime_2020)
  have h3: "map strptime (map fst scenario_schedule) = [Inr (2099, 1, 1), Inr (2020, 1, 1)]"
    by (simp add: scenario_schedule_def strptime_2099 strptime_2020)
  from get_sorted_dates_sorted [OF h1 h2] h1 h3 show ?thesis by blast
qed

lemma get_sorted_dates_scenario:
  "get_sorted_dates scenario_manager = Inr [''01/01/2020'', ''01/01/2099'']"
  by code_simp

text \<open>Dates, not strings, are compared, and equal dates keep their order of insertion.\<close>

lemma get_sorted_dates_mixed:
  "get_sorted_dates \<lparr>json_path = [], data = JObj mixed_schedule\<rparr>
     = Inr [''02/01/2020'', ''2/1/2020'', ''01/12/2020'']"
  by code_simp

theorem find_nearest_upcoming_service_min_witness:
  "data scenario_manager = JObj scenario_schedule
   \<and> map strptime (map fst scenario_schedule) = [Inr (2099, 1, 1), Inr (2020, 1, 1)]
   \<and> ((2024, 6, 1)::date) \<le> (2099, 1, 1) \<and> ((2020, 1, 1)::date) < (2024, 6, 1)
   \<and> find_nearest_upcoming_service (2024, 6, 1) scenario_manager
       = Inr (Some (''01/01/2099'', JObj [(''song1'', JStr ''Amazing Grace'')]))
   \<and> ((2099, 1, 1)::date) < (2100, 1, 1)
   \<and> find_nearest_upcoming_service (2100, 1, 1) scenario_manager = Inr None"
proof -
  have h1: "data scenario_manager = JObj scenario_schedule"
    by (simp add: scenario_manager_def)
  have h2: "\<forall>k \<in> set (map fst scenario_schedule). \<exists>d. strptime k = Inr d"
    by (simp add: scenario_schedule_def strptime_2099 strptime_2020)
  have h3: "\<exists>k d. k \<in> set (map fst scenario_schedule) \<and> strptime k = Inr d \<and> (2024, 6, 1) \<le> d"
    by (rule exI [of _ "''01/01/2099''"], rule exI [of _ "(2099, 1, 1)"])
       (simp add: scenario_schedule_def strptime_2099)
  have h4: "\<forall>k d. k \<in> set (map fst scenario_schedule) \<and> strptime k = Inr d \<longrightarrow> d < (2100, 1, 1)"
    by (auto simp: scenario_schedule_def strptime_2099 strptime_2020)
  have r1: "find_nearest_upcoming_service (2024, 6, 1) scenario_manager
       = Inr (Some (''01/01/2099'', JObj [(''song1'', JStr ''Amazing Grace'')]))"
    using find_nearest_upcoming_service_min [OF h1 h2, of "(2024, 6, 1)"] h3
    by (auto simp: scenario_schedule_def strptime_2099 strptime_2020)
  have r2: "find_nearest_upcoming_service (2100, 1, 1) scenario_manager = Inr None"
    using find_nearest_upcoming_service_min [OF h1 h2, of "(2100, 1, 1)"] h4 by blast
  have h5: "map strptime (map fst scenario_schedule) = [Inr (2099, 1, 1), Inr (2020, 1, 1)]"
    by (simp add: scenario_schedule_def strptime_2099 strptime_2020)
  have h6: "((2024, 6, 1)::date) \<le> (2099, 1, 1) \<and> ((2020, 1, 1)::date) < (2024, 6, 1)
            \<and> ((2099, 1, 1)::date) < (2100, 1, 1)"
    by simp
  from h1 h5 h6 r1 r2 show ?thesis by simp
qed

theorem extract_song_data_total_witness:
  "extract_song_data (JObj [(''song1'', JStr ''Amazing Grace'')])
     = Inr [(''song1'', JStr ''Amazing Grace''), (''song2'', JStr ''none''),
            (''song3'', JStr ''none''), (''start'', JStr ''none''), (''end'', JStr ''none''),
            (''communion'', JStr ''none''), (''song1path'', JStr ''none''),
            (''song2path'', JStr ''none''), (''song3path'', JStr ''none''),
            (''startpath'', JStr ''none''), (''endpath'', JStr ''none''),
            (''communionpath'', JStr ''none'')]
   \<and> map_of [(''song1'', JStr ''Amazing Grace'')] ''song2'' = None
   \<and> extract_song_data (JObj ([(''song1'', JStr ''Amazing Grace'')] @ [(''song2'', JStr ''none'')]))
       = extract_song_data (JObj [(''song1'', JStr ''Amazing Grace'')])"
proof -
  let ?fs = "[(''song1'', JStr ''Amazing Grace'')]"
  have absent: "map_of ?fs ''song2'' = None" by simp
  from extract_song_data_total [of ?fs] obtain r where
    r: "extract_song_data (JObj ?fs) = Inr r" "map fst r = song_keys"
       "\<forall>key \<in> set song_keys.
          map_of r key = Some (case map_of ?fs key of Some v \<Rightarrow> v | None \<Rightarrow> JStr ''none'')"
       "\<forall>key. map_of ?fs key = None \<longrightarrow>
          extract_song_data (JObj (?fs @ [(key, JStr ''none'')])) = Inr r"
    by blast
  have same: "extract_song_data (JObj (?fs @ [(''song2'', JStr ''none'')])) = extract_song_data (JObj ?fs)"
    using r(1) r(4) absent by simp
  have "extract_song_data (JObj ?fs) = Inr (map (\<lambda>key. (key, dict_get ?fs key (JStr ''none''))) song_keys)"
    by (simp add: extract_song_data_def)
  then have val: "extract_song_data (JObj ?fs)
     = Inr [(''song1'', JStr ''Amazing Grace''), (''song2'', JStr ''none''),
            (''song3'', JStr ''none''), (''start'', JStr ''none''), (''end'', JStr ''none''),
            (''communion'', JStr ''none''), (''song1path'', JStr ''none''),
            (''song2path'', JStr ''none''), (''song3path'', JStr ''none''),
            (''startpath'', JStr ''none''), (''endpath'', JStr ''none''),
            (''communionpath'', JStr ''none'')]"
    by (simp add: song_keys_def dict_get_def)
  from val absent same show ?thesis by simp
qed

theorem get_service_data_unknown_date_witness:
  "data scenario_manager = JObj scenario_schedule
   \<and> map_of scenario_schedule ''25/12/2030'' = None
   \<and> get_service_data scenario_manager ''25/12/2030''
       = Inr (map (\<lambda>key. (key, JStr ''none'')) song_keys)
   \<and> ''notes'' \<notin> set song_keys
   \<and> get_service_data
        (scenario_manager\<lparr>data := JObj (scenario_schedule
            @ [(''25/12/2030'', JObj [(''notes'', JStr ''carols'')])])\<rparr>) ''25/12/2030''
       = get_service_data scenario_manager ''25/12/2030''"
proof -
  have h1: "data scenario_manager = JObj scenario_schedule"
    by (simp add: scenario_manager_def)
  have h2: "map_of scenario_schedule ''25/12/2030'' = None"
    by (simp add: scenario_schedule_def)
  have h3: "\<forall>key \<in> set song_keys. map_of [(''notes'', JStr ''carols'')] key = None"
    by (simp add: song_keys_def)
  have h4: "''notes'' \<notin> set song_keys"
    by (simp add: song_keys_def)
  from get_service_data_unknown_date [OF h1 h2] h1 h2 h3 h4 show ?thesis by blast
qed

theorem update_service_data_all_fail_witness:
  "(\<forall>n url. \<exists>e. http_reply timing_out_network n url = RequestException e)
   \<and> distinct (map fst placeholder_fields)
   \<and> set song_keys \<subseteq> set (map fst placeholder_fields)
   \<and> (\<exists>errors net'.
         update_service_data (CompanionAPI ''192.168.1.50'') placeholder_fields ''01/01/2099''
           timing_out_network = (net', Inr errors)
         \<and> length errors = 13 \<and> length (http_log net') = length (http_log timing_out_network) + 13)"
proof -
  have h1: "\<forall>n url. \<exists>e. http_reply timing_out_network n url = RequestException e"
    by (simp add: timing_out_network_def)
  have h2: "distinct (map fst placeholder_fields)"
    by (simp add: placeholder_fields_def comp_def distinct_song_keys)
  have h3: "set song_keys \<subseteq> set (map fst placeholder_fields)"
    by (simp add: placeholder_fields_def comp_def)
  from update_service_data_all_fail [OF h1 h2 h3] h1 h2 h3 show ?thesis by blast
qed

theorem update_service_data_table_only_witness:
  "snd (update_service_data (CompanionAPI ''192.168.1.50'')
          [(''song1'', ''Amazing Grace''), (''preacher'', ''Sam''), (''end'', ''Outro'')]
          ''01/01/2099'' timing_out_network)
     = Inr [''ServiceDate: Read timed out'', ''9amSong1: Read timed out'',
            ''9amEnd: Read timed out'']
   \<and> http_log (fst (update_service_data (CompanionAPI ''192.168.1.50'')
          [(''song1'', ''Amazing Grace''), (''preacher'', ''Sam''), (''end'', ''Outro'')]
          ''01/01/2099'' timing_out_network))
     = [(POST, ''http://192.168.1.50:8000/api/custom-variable/ServiceDate/value?value=01/01/2099''),
        (POST, ''http://192.168.1.50:8000/api/custom-variable/9amSong1/value?value=Amazing Grace''),
        (POST, ''http://192.168.1.50:8000/api/custom-variable/9amEnd/value?value=Outro'')]"
proof -
  let ?api = "CompanionAPI ''192.168.1.50''"
  let ?sd = "[(''song1'', ''Amazing Grace''), (''preacher'', ''Sam''), (''end'', ''Outro'')]"
  let ?kept = "[(''song1'', ''Amazing Grace''), (''end'', ''Outro'')]"
  have kept: "filter in_table ?sd = ?kept"
    by (simp add: in_table_def variable_map_def)
  have run: "snd (update_service_data ?api ?kept ''01/01/2099'' timing_out_network)
     = Inr [''ServiceDate: Read timed out'', ''9amSong1: Read timed out'',
            ''9amEnd: Read timed out'']"
    by (simp add: update_service_data_def http_request_def timing_out_network_def
        variable_map_def error_entry_def)
  have eq: "update_service_data ?api ?kept ''01/01/2099'' timing_out_network
          = update_service_data ?api ?sd ''01/01/2099'' timing_out_network"
    using update_service_data_table_only [of ?api ?sd "''01/01/2099''" timing_out_network] kept
    by simp
  obtain net' errs where res: "update_service_data ?api ?sd ''01/01/2099'' timing_out_network = (net', errs)"
    by (cases "update_service_data ?api ?sd ''01/01/2099'' timing_out_network")
  have errs: "errs = Inr [''ServiceDate: Read timed out'', ''9amSong1: Read timed out'',
            ''9amEnd: Read timed out'']"
    using run eq res by simp
  have "http_log net' = http_log timing_out_network
           @ (POST, set_value_url ?api ''ServiceDate'' ''01/01/2099'')
               # map (field_request ?api) (filter in_table ?sd)"
    using update_service_data_table_only [of ?api ?sd "''01/01/2099''" timing_out_network] res errs
    by blast
  then have "http_log net'
     = [(POST, ''http://192.168.1.50:8000/api/custom-variable/ServiceDate/value?value=01/01/2099''),
        (POST, ''http://192.168.1.50:8000/api/custom-variable/9amSong1/value?value=Amazing Grace''),
        (POST, ''http://192.168.1.50:8000/api/custom-variable/9amEnd/value?value=Outro'')]"
    unfolding kept
    by (simp add: timing_out_network_def field_request_def set_value_url_def CompanionAPI_def
        dict_get_def variable_map_def)
  with res errs show ?thesis by simp
qed

theorem test_connection_spec_witness:
  "snd (test_connection (CompanionAPI ''192.168.1.50'') refusing_network) = Inr False
   \<and> snd (test_connection (CompanionAPI ''192.168.1.50'') timing_out_network) = Inr False
   \<and> snd (test_connection (CompanionAPI ''192.168.1.50'') answering_network) = Inr True"
proof -
  let ?api = "CompanionAPI ''192.168.1.50''"
  have "\<exists>e. sock_connect refusing_network (companion_ip ?api) 8000 = SocketError e"
    by (simp add: refusing_network_def)
  then have r1: "snd (test_connection ?api refusing_network) = Inr False"
    using test_connection_spec [of refusing_network ?api] by blast
  have "sock_connect timing_out_network (companion_ip ?api) 8000 = Connected
        \<and> (\<exists>e. http_reply timing_out_network (length (http_log timing_out_network))
                  (base_url ?api @ ''/ServiceDate/value'') = RequestException e)"
    by (simp add: timing_out_network_def)
  then have r2: "snd (test_connection ?api timing_out_network) = Inr False"
    using test_connection_spec [of timing_out_network ?api] by blast
  have "sock_connect answering_network (companion_ip ?api) 8000 = Connected
        \<and> (\<exists>body. http_reply answering_network (length (http_log answering_network))
                  (base_url ?api @ ''/ServiceDate/value'') = Response 200 body)"
    by (simp add: answering_network_def)
  then have r3: "snd (test_connection ?api answering_network) = Inr True"
    using test_connection_spec [of answering_network ?api] by blast
  from r1 r2 r3 show ?thesis by simp
qed

theorem load_data_failure_keeps_data_witness:
  "snd (load_data only_empty_object (\<lambda>path. Missing) scenario_manager) = False
   \<and> data (fst (load_data only_empty_object (\<lambda>path. Missing) scenario_manager))
       = JObj scenario_schedule
   \<and> snd (load_data only_empty_object (\<lambda>path. Contents ''[1, 2'') scenario_manager)
       = False
   \<and> data (fst (load_data only_empty_object (\<lambda>path. Contents ''[1, 2'')
                scenario_manager))
       = JObj scenario_schedule
   \<and> load_data only_empty_object (\<lambda>path. Contents ''{}'') scenario_manager
       = (scenario_manager\<lparr>data := JObj []\<rparr>, True)"
proof -
  let ?cut = "\<lambda>path::string. Contents ''[1, 2''"
  have d: "data scenario_manager = JObj scenario_schedule"
    by (simp add: scenario_manager_def)
  have a: "(\<lambda>path::string. Missing) (json_path scenario_manager) = Missing" by simp
  have b: "\<exists>text e. ?cut (json_path scenario_manager) = Contents text
             \<and> only_empty_object text = Inl e"
    by (simp add: only_empty_object_def)
  from load_data_failure_keeps_data [of only_empty_object "\<lambda>path. Missing" scenario_manager] a
  have r1: "snd (load_data only_empty_object (\<lambda>path. Missing) scenario_manager) = False
            \<and> data (fst (load_data only_empty_object (\<lambda>path. Missing) scenario_manager))
                = data scenario_manager"
    by blast
  from load_data_failure_keeps_data [of only_empty_object ?cut scenario_manager] b
  have r2: "snd (load_data only_empty_object ?cut scenario_manager) = False
            \<and> data (fst (load_data only_empty_object ?cut scenario_manager))
                = data scenario_manager"
    by blast
  have r3: "load_data only_empty_object (\<lambda>path. Contents ''{}'') scenario_manager
       = (scenario_manager\<lparr>data := JObj []\<rparr>, True)"
    by (simp add: load_data_def only_empty_object_def)
  from r1 r2 r3 d show ?thesis by simp
qed



text \<open>
  Claim C4 as first stated, for every way a call can fail, does not hold: when the server
  answers every call with an error status, the 13 writes are sent and the error list is
  empty; when a call ends in an exception that is not a \<^verbatim>\<open>RequestException\<close>, the
  exception reaches the caller after the first write.
\<close>

theorem update_service_data_all_fail_counterexample:
  "snd (update_service_data (CompanionAPI ''192.168.1.50'') placeholder_fields ''01/01/2099''
          erroring_network) = Inr []
   \<and> length (http_log (fst (update_service_data (CompanionAPI ''192.168.1.50'')
          placeholder_fields ''01/01/2099'' erroring_network))) = 13
   \<and> snd (update_service_data (CompanionAPI ''192.168.1.50'') placeholder_fields ''01/01/2099''
          crashing_network) = Inl (Uncaught ''UnicodeError'')
   \<and> length (http_log (fst (update_service_data (CompanionAPI ''192.168.1.50'')
          placeholder_fields ''01/01/2099'' crashing_network))) = 1"
proof -
  let ?api = "CompanionAPI ''192.168.1.50''"
  let ?run = "update_service_data ?api placeholder_fields ''01/01/2099'' erroring_network"
  have "\<forall>n url. \<exists>status_code body. http_reply erroring_network n url = Response status_code body"
    by (simp add: erroring_network_def)
  then have r1: "snd ?run = Inr []" by (rule update_service_data_status_ignored)
  have twelve: "length (filter in_table placeholder_fields) = 12"
    by (intro count_in_table) (simp_all add: placeholder_fields_def comp_def distinct_song_keys)
  from update_service_data_log [of ?api placeholder_fields "''01/01/2099''" erroring_network] r1
  obtain n where
    n: "http_log (fst ?run) = http_log erroring_network
          @ (POST, set_value_url ?api ''ServiceDate'' ''01/01/2099'')
              # take n (map (field_request ?api) (filter in_table placeholder_fields))"
       "length (filter in_table placeholder_fields) \<le> n"
    by blast
  have r2: "length (http_log (fst ?run)) = 13"
    using n twelve by (simp add: erroring_network_def)
  have r3: "update_service_data ?api placeholder_fields ''01/01/2099'' crashing_network
              = (crashing_network\<lparr>http_log := [(POST, set_value_url ?api ''ServiceDate'' ''01/01/2099'')]\<rparr>,
                 Inl (Uncaught ''UnicodeError''))"
    by (simp add: update_service_data_def http_request_def crashing_network_def)
  from r1 r2 r3 show ?thesis by simp
qed

end
